theory Spec2Isabelle
  imports Main
begin

section \<open>socketio-auth: the authentication gate of \<^verbatim>\<open>lib/socketio-auth.js\<close>\<close>

subsection \<open>JavaScript values and strings\<close>

text \<open>
  The values a configuration field can hold. \<^verbatim>\<open>truthy\<close> is JavaScript's
  conversion to a boolean, as used by \<^verbatim>\<open>||\<close>, \<^verbatim>\<open>!\<close> and \<^verbatim>\<open>if\<close>.
  Numbers are the integral ones (a timeout in milliseconds); NaN is left out.
\<close>

datatype jsval = JUndefined | JNull | JBool bool | JNum int | JStr string

fun truthy :: "jsval \<Rightarrow> bool" where
  "truthy JUndefined = False"
| "truthy JNull = False"
| "truthy (JBool b) = b"
| "truthy (JNum n) = (n \<noteq> 0)"
| "truthy (JStr s) = (s \<noteq> [])"

text \<open>\<^verbatim>\<open>s.indexOf(c)\<close>: the index of the first occurrence of \<open>c\<close>, or \<open>-1\<close>.\<close>

fun indexOf :: "string \<Rightarrow> char \<Rightarrow> int" where
  "indexOf [] c = - 1"
| "indexOf (x # xs) c =
     (if x = c then 0
      else (let i = indexOf xs c in if i < 0 then - 1 else i + 1))"

text \<open>\<^verbatim>\<open>s.substring(start)\<close>: a negative start counts as 0, one beyond the end as the length.\<close>

definition substring :: "string \<Rightarrow> int \<Rightarrow> string" where
  "substring s start = drop (nat start) s"

text \<open>
  \<^verbatim>\<open>function rootSocketId(socketId) { return socketId.substring(socketId.indexOf("#") + 1); }\<close>
\<close>

definition rootSocketId :: "string \<Rightarrow> string" where
  "rootSocketId socketId = substring socketId (indexOf socketId CHR ''#'' + 1)"

text \<open>
  The root identifier in the words of the specification, for comparison:
  the part after the last delimiter, the whole string when there is none.
\<close>

definition root_after_last :: "string \<Rightarrow> string" where
  "root_after_last s = rev (takeWhile (\<lambda>c. c \<noteq> CHR ''#'') (rev s))"

subsection \<open>Configuration\<close>

text \<open>
  The post-authentication hook is caller code: it is known here only by a handle, and
  \<^verbatim>\<open>_.noop\<close> is the hook that does nothing. The verification predicate is a handle too;
  what the module does with its outcome is \<open>authenticate_callback\<close> below.
\<close>

datatype hook = Noop | Hook nat

record config =
  timeout :: jsval
  authenticate :: "nat option"
  postAuthenticate :: "hook option"

record cleaned =
  cleanTimeout :: jsval
  cleanAuthenticate :: "nat option"
  cleanPostAuthenticate :: hook

text \<open>
  \<^verbatim>\<open>function cleanConfig(config) { var config = config || {}; return {
      timeout: config.timeout || 1000, authenticate: config.authenticate,
      postAuthenticate: config.postAuthenticate || _.noop }; }\<close>
  An omitted configuration is \<open>None\<close>; a missing field is \<open>JUndefined\<close> or \<open>None\<close>.
\<close>

definition empty_config :: config where
  "empty_config = \<lparr>timeout = JUndefined, authenticate = None, postAuthenticate = None\<rparr>"

definition cleanConfig :: "config option \<Rightarrow> cleaned" where
  "cleanConfig c =
     (let config = (case c of None \<Rightarrow> empty_config | Some x \<Rightarrow> x) in
      \<lparr>cleanTimeout = (if truthy (timeout config) then timeout config else JNum 1000),
       cleanAuthenticate = authenticate config,
       cleanPostAuthenticate =
         (case postAuthenticate config of None \<Rightarrow> Noop | Some h \<Rightarrow> h)\<rparr>)"

subsection \<open>Sockets, namespaces and the runtime\<close>

text \<open>
  A socket object as far as the module touches it: its qualified id, the \<^verbatim>\<open>auth\<close> flag
  (\<open>None\<close> while the property is unset), the number of \<^verbatim>\<open>authentication\<close> listeners, and
  logs of what was done to it: the events emitted, the \<^verbatim>\<open>disconnect\<close> calls with their
  argument, and the hook calls with their data.
\<close>

type_synonym data = string

datatype payload = PBool bool | PMessage "string option"

datatype emission = Emit string payload bool

record socket =
  sock_id :: string
  auth :: "bool option"
  auth_listeners :: nat
  emitted :: "emission list"
  disconnect_calls :: "string option list"
  hook_calls :: "(nat \<times> data) list"

type_synonym ref = nat

text \<open>
  A namespace holds references: \<^verbatim>\<open>nsp.sockets\<close> is the raw connection list and
  \<^verbatim>\<open>nsp.connected\<close> the object, keyed by socket id, that broadcasts go to.
\<close>

record namespace =
  nsp_name :: string
  sockets :: "ref list"
  connected :: "string \<rightharpoonup> ref"

text \<open>
  The runtime: the object store, the timeouts scheduled by \<^verbatim>\<open>setTimeout\<close> (delay and
  socket of the callback) and the acknowledgement callbacks waiting for the client.
\<close>

record runtime =
  heap :: "ref \<Rightarrow> socket"
  timers :: "(jsval \<times> ref) list"
  acks :: "ref list"

record server =
  nsps :: "namespace list"
  rt :: runtime

definition is_auth :: "socket \<Rightarrow> bool" where
  "is_auth s = (auth s = Some True)"

subsection \<open>What the module calls on a socket\<close>

text \<open>
  \<^verbatim>\<open>socket.emit(name, payload[, ack])\<close>, \<^verbatim>\<open>socket.disconnect([arg])\<close> and a call of the
  post-authentication hook are recorded on the socket, in order. The hook is caller code;
  the model takes it to touch no field but its own log.
\<close>

definition emit :: "socket \<Rightarrow> string \<Rightarrow> payload \<Rightarrow> bool \<Rightarrow> socket" where
  "emit s name p ack = s\<lparr>emitted := emitted s @ [Emit name p ack]\<rparr>"

definition disconnect :: "socket \<Rightarrow> string option \<Rightarrow> socket" where
  "disconnect s arg = s\<lparr>disconnect_calls := disconnect_calls s @ [arg]\<rparr>"

fun call_hook :: "hook \<Rightarrow> data \<Rightarrow> socket \<Rightarrow> socket" where
  "call_hook Noop d s = s"
| "call_hook (Hook k) d s = s\<lparr>hook_calls := hook_calls s @ [(k, d)]\<rparr>"

text \<open>
  Modelled from the spec: \<^verbatim>\<open>_.findWhere(collection, predicate)\<close> belongs to lodash, which
  is not part of the sources. The specification's \<open>findByRoot\<close> scans the list for an
  element the predicate accepts and returns the first match or none: so does this
  function, with \<open>None\<close> for \<^verbatim>\<open>undefined\<close>.
\<close>

fun findWhere :: "'a list \<Rightarrow> ('a \<Rightarrow> bool) \<Rightarrow> 'a option" where
  "findWhere [] p = None"
| "findWhere (x # xs) p = (if p x then Some x else findWhere xs p)"

text \<open>\<^verbatim>\<open>_.each(io.nsps, f)\<close>: \<open>f\<close> on every namespace in turn, each call seeing the
  effects of the calls before it.\<close>

fun each_nsp ::
  "(namespace \<Rightarrow> runtime \<Rightarrow> namespace \<times> runtime) \<Rightarrow> namespace list \<Rightarrow> runtime
     \<Rightarrow> namespace list \<times> runtime" where
  "each_nsp f [] w = ([], w)"
| "each_nsp f (n # ns) w =
     (case f n w of (n', w') \<Rightarrow>
        (case each_nsp f ns w' of (ns', w'') \<Rightarrow> (n' # ns', w'')))"

subsection \<open>The module's functions\<close>

text \<open>
  \<^verbatim>\<open>function authConnections(nsp, socketId, postAuthenticate) {
      var socket = _.findWhere(nsp.sockets, (socket) => {
          return rootSocketId(socket.id) === rootSocketId(socketId); });
      if (socket) { socket.auth = true; postAuthenticate(socket);
          socket.emit('authenticated', true); nsp.connected[socketId] = socket; } }\<close>
\<close>

definition authConnections ::
  "namespace \<Rightarrow> string \<Rightarrow> (socket \<Rightarrow> socket) \<Rightarrow> runtime \<Rightarrow> namespace \<times> runtime" where
  "authConnections nsp socketId postAuth w =
     (case findWhere (sockets nsp)
             (\<lambda>r. rootSocketId (sock_id (heap w r)) = rootSocketId socketId) of
        None \<Rightarrow> (nsp, w)
      | Some r \<Rightarrow>
          (let s1 = (heap w r)\<lparr>auth := Some True\<rparr>;
               s2 = postAuth s1;
               s3 = emit s2 ''authenticated'' (PBool True) False
           in (nsp\<lparr>connected := (connected nsp)(socketId \<mapsto> r)\<rparr>,
               w\<lparr>heap := (heap w)(r := s3)\<rparr>)))"

text \<open>
  \<^verbatim>\<open>function disconnectConnections(nsp, socketId, message) {
      var socket = _.findWhere(nsp.sockets, ...same predicate...);
      if (socket) { socket.emit('unauthorized', {message: message},
                                function() { socket.disconnect(); }); } }\<close>
  The acknowledgement callback is queued; \<open>ack_callback\<close> is its body.
\<close>

definition disconnectConnections ::
  "namespace \<Rightarrow> string \<Rightarrow> string option \<Rightarrow> runtime \<Rightarrow> runtime" where
  "disconnectConnections nsp socketId message w =
     (case findWhere (sockets nsp)
             (\<lambda>r. rootSocketId (sock_id (heap w r)) = rootSocketId socketId) of
        None \<Rightarrow> w
      | Some r \<Rightarrow>
          w\<lparr>heap := (heap w)(r := emit (heap w r) ''unauthorized'' (PMessage message) True),
            acks := acks w @ [r]\<rparr>)"

definition ack_callback :: "ref \<Rightarrow> runtime \<Rightarrow> runtime" where
  "ack_callback socket w = w\<lparr>heap := (heap w)(socket := disconnect (heap w socket) None)\<rparr>"

text \<open>
  The completion callback that \<^verbatim>\<open>authenticateSocket\<close> hands to the predicate:
  \<^verbatim>\<open>function(err, success) {
      if (success) { var postAuthenticate = function(socket) { config.postAuthenticate(socket, data); }
          _.each(io.nsps, function(nsp) { authConnections(nsp, socket.id, postAuthenticate); }); }
      else { var message = err ? err.message : 'Authentication failure';
          _.each(io.nsps, function(nsp) { disconnectConnections(nsp, socket.id, message); }); } }\<close>
  A falsy \<^verbatim>\<open>err\<close> is \<open>None\<close>; an error without a message has \<open>err_message = None\<close>;
  \<^verbatim>\<open>success\<close> is taken by its truthiness.
\<close>

record js_error =
  err_message :: "string option"

definition authenticate_callback ::
  "cleaned \<Rightarrow> ref \<Rightarrow> data \<Rightarrow> js_error option \<Rightarrow> bool \<Rightarrow> server \<Rightarrow> server" where
  "authenticate_callback config socket dat err success io =
     (if success then
        (let postAuth = call_hook (cleanPostAuthenticate config) dat in
         case each_nsp (\<lambda>nsp w. authConnections nsp (sock_id (heap w socket)) postAuth w)
                (nsps io) (rt io) of
           (ns, w) \<Rightarrow> \<lparr>nsps = ns, rt = w\<rparr>)
      else
        (let message = (case err of None \<Rightarrow> Some ''Authentication failure''
                                  | Some e \<Rightarrow> err_message e) in
         case each_nsp (\<lambda>nsp w. (nsp, disconnectConnections nsp (sock_id (heap w socket)) message w))
                (nsps io) (rt io) of
           (ns, w) \<Rightarrow> \<lparr>nsps = ns, rt = w\<rparr>))"

text \<open>
  \<^verbatim>\<open>function setupTimeout(timeout, socket) {
      if (timeout === 'none') { return; }
      setTimeout(function() { if (!socket.auth) { socket.disconnect('unauthorized'); } }, timeout); }\<close>
\<close>

definition setupTimeout :: "jsval \<Rightarrow> ref \<Rightarrow> runtime \<Rightarrow> runtime" where
  "setupTimeout tmo socket w =
     (if tmo = JStr ''none'' then w else w\<lparr>timers := timers w @ [(tmo, socket)]\<rparr>)"

definition timeout_callback :: "ref \<Rightarrow> runtime \<Rightarrow> runtime" where
  "timeout_callback socket w =
     (if is_auth (heap w socket) then w
      else w\<lparr>heap := (heap w)(socket := disconnect (heap w socket) (Some ''unauthorized''))\<rparr>)"

text \<open>
  The \<^verbatim>\<open>connection\<close> listener installed by \<^verbatim>\<open>setupConnectionHandlers\<close>:
  \<^verbatim>\<open>function(socket) { if (socket.auth) { return; } socket.auth = false;
      socket.on('authentication', ...); setupTimeout(config.timeout, socket); }\<close>
\<close>

definition setupConnectionHandlers :: "cleaned \<Rightarrow> ref \<Rightarrow> runtime \<Rightarrow> runtime" where
  "setupConnectionHandlers config socket w =
     (if is_auth (heap w socket) then w
      else setupTimeout (cleanTimeout config) socket
             (w\<lparr>heap := (heap w)(socket :=
                   (heap w socket)\<lparr>auth := Some False,
                     auth_listeners := Suc (auth_listeners (heap w socket))\<rparr>)\<rparr>))"

text \<open>
  The \<^verbatim>\<open>connect\<close> listener installed by \<^verbatim>\<open>forbidConnections\<close>:
  \<^verbatim>\<open>function(socket) { if (!socket.auth) { delete nsp.connected[socket.id]; } }\<close>
\<close>

definition forbidConnections :: "namespace \<Rightarrow> ref \<Rightarrow> runtime \<Rightarrow> namespace" where
  "forbidConnections nsp socket w =
     (if is_auth (heap w socket) then nsp
      else nsp\<lparr>connected := (connected nsp)(sock_id (heap w socket) := None)\<rparr>)"

subsection \<open>The events the module reacts to\<close>

text \<open>
  \<^verbatim>\<open>socketIOAuth(io, config)\<close> cleans the configuration and installs the two listeners on
  every namespace of \<^verbatim>\<open>io.nsps\<close>. The listeners and callbacks above run when the server
  raises \<^verbatim>\<open>connect\<close> or \<^verbatim>\<open>connection\<close> for a socket of a namespace, when a scheduled
  timeout fires, when the predicate calls back for an authentication message of a socket,
  and when a client acknowledges an \<^verbatim>\<open>unauthorized\<close> event. A timeout or acknowledgement that is not
  pending cannot happen: the step leaves the server as it is.
\<close>

datatype event =
    Connect nat ref
  | Connection ref
  | TimerFires nat
  | PredicateDone ref data "js_error option" bool
  | AckReceived nat

definition drop_nth :: "nat \<Rightarrow> 'a list \<Rightarrow> 'a list" where
  "drop_nth k xs = take k xs @ drop (Suc k) xs"

fun step :: "cleaned \<Rightarrow> event \<Rightarrow> server \<Rightarrow> server" where
  "step config (Connect i socket) io =
     (if i < length (nsps io)
      then io\<lparr>nsps := (nsps io)[i := forbidConnections (nsps io ! i) socket (rt io)]\<rparr>
      else io)"
| "step config (Connection socket) io =
     io\<lparr>rt := setupConnectionHandlers config socket (rt io)\<rparr>"
| "step config (TimerFires k) io =
     (if k < length (timers (rt io))
      then io\<lparr>rt := timeout_callback (snd (timers (rt io) ! k))
                      ((rt io)\<lparr>timers := drop_nth k (timers (rt io))\<rparr>)\<rparr>
      else io)"
| "step config (PredicateDone socket dat err success) io =
     authenticate_callback config socket dat err success io"
| "step config (AckReceived k) io =
     (if k < length (acks (rt io))
      then io\<lparr>rt := ack_callback (acks (rt io) ! k)
                      ((rt io)\<lparr>acks := drop_nth k (acks (rt io))\<rparr>)\<rparr>
      else io)"

fun run :: "cleaned \<Rightarrow> event list \<Rightarrow> server \<Rightarrow> server" where
  "run config [] io = io"
| "run config (e # es) io = run config es (step config e io)"

subsection \<open>The specification's status of a session\<close>

text \<open>
  The code keeps one flag per socket. The specification speaks of three statuses, with
  \<open>pending \<rightarrow> rejected\<close> taken when the predicate fails or the timer fires. Read off a socket:
  it is authenticated when the flag is true; otherwise rejected once the module has sent it
  \<^verbatim>\<open>unauthorized\<close> or called \<^verbatim>\<open>disconnect\<close> on it; otherwise pending.
\<close>

datatype status = Pending | Authenticated | Rejected

fun is_unauthorized :: "emission \<Rightarrow> bool" where
  "is_unauthorized (Emit name p ack) = (name = ''unauthorized'')"

definition was_refused :: "socket \<Rightarrow> bool" where
  "was_refused s = (0 < length (filter is_unauthorized (emitted s)) + length (disconnect_calls s))"

definition status_of :: "socket \<Rightarrow> status" where
  "status_of s = (if is_auth s then Authenticated else if was_refused s then Rejected else Pending)"

subsection \<open>A small server\<close>

text \<open>
  One client with root id \<open>XYZ\<close> has joined \<open>/a\<close> and \<open>/b\<close>; another client, with root
  id \<open>OTHER\<close>, has joined \<open>/b\<close> before it and is alone in \<open>/c\<close>. The timeout is 50 ms.
  All four sockets have been through the connection listeners: flag false, one listener,
  a timeout scheduled, in the raw list and not in \<^verbatim>\<open>connected\<close>.
\<close>

definition joined :: "string \<Rightarrow> socket" where
  "joined i = \<lparr>sock_id = i, auth = Some False, auth_listeners = 1, emitted = [],
               disconnect_calls = [], hook_calls = []\<rparr>"

definition example_heap :: "ref \<Rightarrow> socket" where
  "example_heap r =
     (if r = 0 then joined ''/a#XYZ'' else if r = 1 then joined ''/b#XYZ''
      else if r = 2 then joined ''/c#OTHER'' else joined ''/b#OTHER'')"

definition example_io :: server where
  "example_io =
     \<lparr>nsps = [\<lparr>nsp_name = ''/a'', sockets = [0], connected = Map.empty\<rparr>,
              \<lparr>nsp_name = ''/b'', sockets = [3, 1], connected = Map.empty\<rparr>,
              \<lparr>nsp_name = ''/c'', sockets = [2], connected = Map.empty\<rparr>],
      rt = \<lparr>heap = example_heap,
            timers = [(JNum 50, 0), (JNum 50, 3), (JNum 50, 1), (JNum 50, 2)],
            acks = []\<rparr>\<rparr>"

definition example_config :: cleaned where
  "example_config = cleanConfig (Some \<lparr>timeout = JNum 50, authenticate = Some 0,
                                       postAuthenticate = None\<rparr>)"

text \<open>The same server when the connections were made with the timeout \<open>none\<close>.\<close>

definition quiet_io :: server where
  "quiet_io = example_io\<lparr>rt := (rt example_io)\<lparr>timers := []\<rparr>\<rparr>"

subsection \<open>Notions used in the statements\<close>

text \<open>
  The socket of a namespace that \<open>authConnections\<close> and \<open>disconnectConnections\<close> look up
  for a sender's id: the first one of the raw list with the sender's root id.
\<close>

definition matching_socket :: "namespace \<Rightarrow> string \<Rightarrow> runtime \<Rightarrow> ref option" where
  "matching_socket nsp socketId w =
     findWhere (sockets nsp) (\<lambda>r. rootSocketId (sock_id (heap w r)) = rootSocketId socketId)"

text \<open>The message of the \<^verbatim>\<open>unauthorized\<close> payload, as the callback chooses it.\<close>

definition failure_message :: "js_error option \<Rightarrow> string option" where
  "failure_message err =
     (case err of None \<Rightarrow> Some ''Authentication failure'' | Some e \<Rightarrow> err_message e)"

text \<open>Relations between the runtime before and after a piece of the module has run.\<close>

definition same_ids :: "runtime \<Rightarrow> runtime \<Rightarrow> bool" where
  "same_ids w w' = (\<forall>r. sock_id (heap w' r) = sock_id (heap w r))"

definition same_flags :: "runtime \<Rightarrow> runtime \<Rightarrow> bool" where
  "same_flags w w' = (\<forall>r. auth (heap w' r) = auth (heap w r))"

definition keeps_logs :: "runtime \<Rightarrow> runtime \<Rightarrow> bool" where
  "keeps_logs w w' =
     ((\<forall>r. set (emitted (heap w r)) \<subseteq> set (emitted (heap w' r))) \<and>
      set (acks w) \<subseteq> set (acks w'))"

definition refusing :: "runtime \<Rightarrow> runtime \<Rightarrow> bool" where
  "refusing w w' = (same_ids w w' \<and> same_flags w w' \<and> keeps_logs w w')"

text \<open>Sockets with another root id than the sender's are left as they were.\<close>

definition only_root :: "ref \<Rightarrow> runtime \<Rightarrow> runtime \<Rightarrow> bool" where
  "only_root socket w w' =
     (same_ids w w' \<and>
      (\<forall>r. rootSocketId (sock_id (heap w r)) \<noteq> rootSocketId (sock_id (heap w socket))
            \<longrightarrow> heap w' r = heap w r))"

text \<open>No socket loses the flag, and none goes back to pending.\<close>

definition flag_kept :: "runtime \<Rightarrow> runtime \<Rightarrow> bool" where
  "flag_kept w w' =
     (\<forall>r. (is_auth (heap w r) \<longrightarrow> is_auth (heap w' r)) \<and>
          (status_of (heap w' r) = Pending \<longrightarrow> status_of (heap w r) = Pending))"

text \<open>
  The \<^verbatim>\<open>disconnect\<close> calls of the Timer Guard: the timeout callback is the only place
  that passes the argument \<^verbatim>\<open>'unauthorized'\<close>.
\<close>

definition by_timer :: "socket \<Rightarrow> string option list" where
  "by_timer s = filter (\<lambda>a. a = Some ''unauthorized'') (disconnect_calls s)"

definition timer_idle :: "runtime \<Rightarrow> runtime \<Rightarrow> bool" where
  "timer_idle w w' =
     (timers w' = timers w \<and> (\<forall>r. by_timer (heap w' r) = by_timer (heap w r)))"

section \<open>Properties\<close>

subsection \<open>The Correlation Resolver\<close>

lemma indexOf_absent: "c \<notin> set s \<Longrightarrow> indexOf s c = - 1"
  by (induction s) auto

lemma indexOf_first: "c \<notin> set a \<Longrightarrow> indexOf (a @ c # b) c = int (length a)"
  by (induction a) (auto simp: Let_def)

lemma root_after_last_append:
  "CHR ''#'' \<notin> set b \<Longrightarrow> root_after_last (a @ CHR ''#'' # b) = b"
proof -
  assume b: "CHR ''#'' \<notin> set b"
  have "takeWhile (\<lambda>c. c \<noteq> CHR ''#'') (rev b @ CHR ''#'' # rev a) = rev b"
    using b by (induction b rule: rev_induct) auto
  then show ?thesis by (simp add: root_after_last_def)
qed

text \<open>
  C1, as the code has it. \<open>rootSocketId\<close> cuts at the FIRST delimiter: a string without
  \<open>#\<close> is returned whole, and a string \<open>a#b\<close> whose part \<open>a\<close> has no \<open>#\<close> gives \<open>b\<close>,
  whatever delimiters \<open>b\<close> still holds.
\<close>

theorem rootSocketId_first_delimiter:
  "(CHR ''#'' \<notin> set s \<longrightarrow> rootSocketId s = s) \<and>
   (CHR ''#'' \<notin> set a \<longrightarrow> rootSocketId (a @ CHR ''#'' # b) = b)"
  by (simp add: rootSocketId_def substring_def indexOf_absent indexOf_first nat_add_distrib)

theorem rootSocketId_first_delimiter_witness:
  "CHR ''#'' \<notin> set ''XYZ'' \<and> rootSocketId ''XYZ'' = ''XYZ'' \<and>
   CHR ''#'' \<notin> set ''/a'' \<and> rootSocketId (''/a'' @ CHR ''#'' # ''b#XYZ'') = ''b#XYZ''"
  using rootSocketId_first_delimiter [of "''XYZ''" "''/a''" "''b#XYZ''"] by simp

text \<open>
  C1, as stated, fails on an identifier with two delimiters: the part after the last
  \<open>#\<close> of \<open>/a#b#XYZ\<close> is \<open>XYZ\<close>, and \<open>rootSocketId\<close> returns \<open>b#XYZ\<close>.
\<close>

theorem rootSocketId_last_delimiter_counterexample:
  "rootSocketId ''/a#b#XYZ'' = ''b#XYZ'' \<and> root_after_last ''/a#b#XYZ'' = ''XYZ'' \<and>
   rootSocketId ''/a#b#XYZ'' \<noteq> root_after_last ''/a#b#XYZ''"
  by (simp add: rootSocketId_def substring_def root_after_last_def)

subsection \<open>Configuration cleaning\<close>

text \<open>
  C10. Every falsy timeout is replaced by 1000: so is a timeout of 0, and so is the
  timeout of an omitted configuration.
\<close>

theorem cleanConfig_falsy_timeout:
  "(\<not> truthy (timeout c) \<longrightarrow> cleanTimeout (cleanConfig (Some c)) = JNum 1000) \<and>
   cleanTimeout (cleanConfig (Some (c\<lparr>timeout := JNum 0\<rparr>))) = JNum 1000 \<and>
   cleanTimeout (cleanConfig None) = JNum 1000"
  by (simp add: cleanConfig_def empty_config_def)

theorem cleanConfig_falsy_timeout_witness:
  "\<not> truthy (timeout \<lparr>timeout = JStr [], authenticate = Some 0, postAuthenticate = None\<rparr>) \<and>
   cleanTimeout (cleanConfig (Some \<lparr>timeout = JStr [], authenticate = Some 0,
                                    postAuthenticate = None\<rparr>)) = JNum 1000"
  using cleanConfig_falsy_timeout
          [of "\<lparr>timeout = JStr [], authenticate = Some 0, postAuthenticate = None\<rparr>"]
  by simp

subsection \<open>Success fan-out: the key of the reinserted socket\<close>

text \<open>
  C2 on the small server. The client authenticates on its \<open>/a\<close> socket. In \<open>/b\<close> the
  socket found is \<open>/b#XYZ\<close> (reference 1), and it is stored in \<^verbatim>\<open>connected\<close> under the
  sender's id \<open>/a#XYZ\<close>; its own key \<open>/b#XYZ\<close>, the one the \<^verbatim>\<open>connect\<close> listener deleted,
  stays empty.
\<close>

theorem authConnections_keyed_by_sender_id:
  "sock_id (heap (rt example_io) 1) = ''/b#XYZ'' \<and>
   connected (nsps (authenticate_callback example_config 0 ''token'' None True example_io) ! 1)
     ''/b#XYZ'' = None \<and>
   connected (nsps (authenticate_callback example_config 0 ''token'' None True example_io) ! 1)
     ''/a#XYZ'' = Some 1"
  by (simp add: authenticate_callback_def example_io_def example_config_def cleanConfig_def
      authConnections_def example_heap_def joined_def rootSocketId_def substring_def emit_def)

subsection \<open>Lookups and the loop over the namespaces\<close>

lemma findWhere_Some: "findWhere xs p = Some x \<Longrightarrow> x \<in> set xs \<and> p x"
  by (induction xs) (auto split: if_splits)

lemma findWhere_None: "findWhere xs p = None \<Longrightarrow> x \<in> set xs \<Longrightarrow> \<not> p x"
  by (induction xs) (auto split: if_splits)

lemma findWhere_cong: "(\<And>x. x \<in> set xs \<Longrightarrow> p x = q x) \<Longrightarrow> findWhere xs p = findWhere xs q"
  by (induction xs) auto

lemma each_nsp_rel:
  assumes step: "\<And>n w n' w'. f n w = (n', w') \<Longrightarrow> R w w'"
    and refl: "\<And>w. R w w"
    and trans: "\<And>a b c. R a b \<Longrightarrow> R b c \<Longrightarrow> R a c"
  shows "each_nsp f ns w = (ns', w') \<Longrightarrow> R w w'"
proof (induction ns arbitrary: w ns' w')
  case Nil
  then show ?case by (simp add: refl)
next
  case (Cons n ns)
  obtain n1 w1 where f: "f n w = (n1, w1)" by (cases "f n w")
  obtain ns2 w2 where e: "each_nsp f ns w1 = (ns2, w2)" by (cases "each_nsp f ns w1")
  from Cons.prems f e have "w' = w2" by simp
  moreover have "R w w1" using f by (rule step)
  moreover have "R w1 w2" using e by (rule Cons.IH)
  ultimately show ?case using trans by blast
qed

lemma each_nsp_length: "each_nsp f ns w = (ns', w') \<Longrightarrow> length ns' = length ns"
  by (induction ns arbitrary: w ns' w') (auto split: prod.splits)

lemma each_nsp_nth:
  assumes step: "\<And>n w n' w'. f n w = (n', w') \<Longrightarrow> R w w'"
    and refl: "\<And>w. R w w"
    and trans: "\<And>a b c. R a b \<Longrightarrow> R b c \<Longrightarrow> R a c"
  shows "each_nsp f ns w = (ns', w') \<Longrightarrow> i < length ns \<Longrightarrow>
         \<exists>v. R w v \<and> ns' ! i = fst (f (ns ! i) v) \<and> R (snd (f (ns ! i) v)) w'"
proof (induction ns arbitrary: w ns' w' i)
  case Nil
  then show ?case by simp
next
  case (Cons n ns)
  obtain n1 w1 where f: "f n w = (n1, w1)" by (cases "f n w")
  obtain ns2 w2 where e: "each_nsp f ns w1 = (ns2, w2)" by (cases "each_nsp f ns w1")
  from Cons.prems(1) f e have eq: "ns' = n1 # ns2" "w' = w2" by simp_all
  have r1: "R w w1" using f by (rule step)
  have r2: "R w1 w2"
  proof (rule each_nsp_rel [where f = f and R = R])
    show "each_nsp f ns w1 = (ns2, w2)" by (rule e)
  qed (erule step, rule refl, erule trans, assumption)
  show ?case
  proof (cases i)
    case 0
    have "R w w \<and> ns' ! i = fst (f ((n # ns) ! i) w) \<and> R (snd (f ((n # ns) ! i) w)) w'"
      using 0 f eq refl r2 by simp
    then show ?thesis by blast
  next
    case (Suc j)
    with Cons.prems(2) have "j < length ns" by simp
    from Cons.IH [OF e this] obtain v where
      v: "R w1 v" "ns2 ! j = fst (f (ns ! j) v)" "R (snd (f (ns ! j) v)) w2" by blast
    from r1 v(1) have "R w v" by (rule trans)
    then have "R w v \<and> ns' ! i = fst (f ((n # ns) ! i) v) \<and> R (snd (f ((n # ns) ! i) v)) w'"
      using v Suc eq by simp
    then show ?thesis by blast
  qed
qed

lemma call_hook_fields [simp]:
  "sock_id (call_hook h d s) = sock_id s"
  "auth (call_hook h d s) = auth s"
  "emitted (call_hook h d s) = emitted s"
  "disconnect_calls (call_hook h d s) = disconnect_calls s"
  by (cases h; simp)+

lemma same_ids_refl: "same_ids w w"
  by (simp add: same_ids_def)

lemma same_ids_trans: "same_ids a b \<Longrightarrow> same_ids b c \<Longrightarrow> same_ids a c"
  by (simp add: same_ids_def)

lemma matching_socket_Some: "matching_socket n sid w = Some r \<Longrightarrow>
   r \<in> set (sockets n) \<and> rootSocketId (sock_id (heap w r)) = rootSocketId sid"
  unfolding matching_socket_def by (drule findWhere_Some) simp

lemma matching_socket_None: "matching_socket n sid w = None \<Longrightarrow> r \<in> set (sockets n) \<Longrightarrow>
   rootSocketId (sock_id (heap w r)) \<noteq> rootSocketId sid"
  unfolding matching_socket_def by (drule findWhere_None) auto

lemma matching_socket_same_ids:
  "same_ids w v \<Longrightarrow> matching_socket n (sock_id (heap v s)) v = matching_socket n (sock_id (heap w s)) w"
  by (simp add: matching_socket_def same_ids_def)

lemma authConnections_unfold:
  "authConnections nsp socketId postAuth w =
     (case matching_socket nsp socketId w of
        None \<Rightarrow> (nsp, w)
      | Some r \<Rightarrow>
           (nsp\<lparr>connected := (connected nsp)(socketId \<mapsto> r)\<rparr>,
               w\<lparr>heap := (heap w)(r := emit (postAuth ((heap w r)\<lparr>auth := Some True\<rparr>)) ''authenticated'' (PBool True) False)\<rparr>))"
  by (simp add: authConnections_def matching_socket_def Let_def split: option.split)

lemma disconnectConnections_unfold:
  "disconnectConnections nsp socketId message w =
     (case matching_socket nsp socketId w of
        None \<Rightarrow> w
      | Some r \<Rightarrow>
          w\<lparr>heap := (heap w)(r := emit (heap w r) ''unauthorized'' (PMessage message) True),
            acks := acks w @ [r]\<rparr>)"
  by (simp add: disconnectConnections_def matching_socket_def)

lemma authConnections_same_ids:
  "authConnections n sid (call_hook h d) w = (n', w') \<Longrightarrow> same_ids w w'"
  by (auto simp: authConnections_unfold same_ids_def emit_def split: option.splits)

lemma disconnectConnections_same_ids:
  "same_ids w (disconnectConnections n sid m w)"
  by (auto simp: disconnectConnections_unfold same_ids_def emit_def split: option.splits)

subsection \<open>Namespaces the client never joined\<close>

lemma only_root_refl: "only_root s w w"
  by (simp add: only_root_def same_ids_def)

lemma only_root_trans: "only_root s a b \<Longrightarrow> only_root s b c \<Longrightarrow> only_root s a c"
  by (simp add: only_root_def same_ids_def)

lemma authConnections_only_root:
  "authConnections n (sock_id (heap w s)) (call_hook h d) w = (n', w') \<Longrightarrow> only_root s w w'"
  by (auto simp: authConnections_unfold only_root_def same_ids_def emit_def
      dest: matching_socket_Some split: option.splits)

lemma disconnectConnections_only_root:
  "only_root s w (disconnectConnections n (sock_id (heap w s)) m w)"
  by (auto simp: disconnectConnections_unfold only_root_def same_ids_def emit_def
      dest: matching_socket_Some split: option.splits)

lemma success_fanout:
  "authenticate_callback config s dat err True io =
     \<lparr>nsps = fst (each_nsp (\<lambda>nsp w. authConnections nsp (sock_id (heap w s))
                        (call_hook (cleanPostAuthenticate config) dat) w) (nsps io) (rt io)),
      rt = snd (each_nsp (\<lambda>nsp w. authConnections nsp (sock_id (heap w s))
                        (call_hook (cleanPostAuthenticate config) dat) w) (nsps io) (rt io))\<rparr>"
  by (simp add: authenticate_callback_def split: prod.split)

lemma failure_fanout:
  "authenticate_callback config s dat err False io =
     \<lparr>nsps = fst (each_nsp (\<lambda>nsp w. (nsp, disconnectConnections nsp (sock_id (heap w s))
                        (failure_message err) w)) (nsps io) (rt io)),
      rt = snd (each_nsp (\<lambda>nsp w. (nsp, disconnectConnections nsp (sock_id (heap w s))
                        (failure_message err) w)) (nsps io) (rt io))\<rparr>"
  by (simp add: authenticate_callback_def failure_message_def split: prod.split)

lemma success_only_root:
  "each_nsp (\<lambda>nsp w. authConnections nsp (sock_id (heap w s)) (call_hook h d) w) ns w = (ns', w')
     \<Longrightarrow> only_root s w w'"
  by (erule each_nsp_rel [rotated 3])
     (erule authConnections_only_root, rule only_root_refl, erule only_root_trans, assumption)

lemma failure_only_root:
  "each_nsp (\<lambda>nsp w. (nsp, disconnectConnections nsp (sock_id (heap w s)) m w)) ns w = (ns', w')
     \<Longrightarrow> only_root s w w'"
  by (erule each_nsp_rel [rotated 3])
     (auto intro: disconnectConnections_only_root only_root_refl elim: only_root_trans)

lemma success_nth:
  assumes e: "each_nsp (\<lambda>nsp w. authConnections nsp (sock_id (heap w s)) (call_hook h d) w) ns w = (ns', w')"
    and i: "i < length ns"
    and m: "matching_socket (ns ! i) (sock_id (heap w s)) w = None"
  shows "ns' ! i = ns ! i"
proof -
  have "\<exists>v. only_root s w v \<and>
          ns' ! i = fst (authConnections (ns ! i) (sock_id (heap v s)) (call_hook h d) v) \<and>
          only_root s (snd (authConnections (ns ! i) (sock_id (heap v s)) (call_hook h d) v)) w'"
    by (rule each_nsp_nth [where R = "only_root s", OF _ _ _ e i])
       (erule authConnections_only_root, rule only_root_refl, erule only_root_trans, assumption)
  then obtain v where v: "only_root s w v"
    and n: "ns' ! i = fst (authConnections (ns ! i) (sock_id (heap v s)) (call_hook h d) v)"
    by blast
  from v have "same_ids w v" by (simp add: only_root_def)
  then have "matching_socket (ns ! i) (sock_id (heap v s)) v = None"
    using m by (simp add: matching_socket_same_ids)
  with n show ?thesis by (simp add: authConnections_unfold)
qed

lemma failure_nsps:
  "each_nsp (\<lambda>nsp w. (nsp, g nsp w)) ns w = (ns', w') \<Longrightarrow> ns' = ns"
  by (induction ns arbitrary: w ns' w') (auto split: prod.splits)

text \<open>
  C9. A namespace without a socket of the sender's root id comes out of the fan-out,
  successful or not, exactly as it went in: its \<^verbatim>\<open>connected\<close> object, its raw list and
  every socket of its list are unchanged, and so is the number of namespaces. The
  callback has no failing branch.
\<close>

theorem fanout_skips_namespace:
  assumes i: "i < length (nsps io)"
    and m: "matching_socket (nsps io ! i) (sock_id (heap (rt io) socket)) (rt io) = None"
  shows "length (nsps (authenticate_callback config socket dat err success io)) = length (nsps io) \<and>
         nsps (authenticate_callback config socket dat err success io) ! i = nsps io ! i \<and>
         (\<forall>r \<in> set (sockets (nsps io ! i)).
            heap (rt (authenticate_callback config socket dat err success io)) r = heap (rt io) r)"
proof (cases success)
  case True
  obtain ns' w' where e: "each_nsp (\<lambda>nsp w. authConnections nsp (sock_id (heap w socket))
        (call_hook (cleanPostAuthenticate config) dat) w) (nsps io) (rt io) = (ns', w')"
    by (cases "each_nsp (\<lambda>nsp w. authConnections nsp (sock_id (heap w socket))
        (call_hook (cleanPostAuthenticate config) dat) w) (nsps io) (rt io)")
  have r: "only_root socket (rt io) w'" using e by (rule success_only_root)
  have "\<forall>r \<in> set (sockets (nsps io ! i)). heap w' r = heap (rt io) r"
    using r matching_socket_None [OF m] by (simp add: only_root_def)
  then show ?thesis
    using True e each_nsp_length [OF e] success_nth [OF e i m] by (simp add: success_fanout)
next
  case False
  obtain ns' w' where e: "each_nsp (\<lambda>nsp w. (nsp, disconnectConnections nsp (sock_id (heap w socket))
        (failure_message err) w)) (nsps io) (rt io) = (ns', w')"
    by (cases "each_nsp (\<lambda>nsp w. (nsp, disconnectConnections nsp (sock_id (heap w socket))
        (failure_message err) w)) (nsps io) (rt io)")
  have r: "only_root socket (rt io) w'" using e by (rule failure_only_root)
  have "\<forall>r \<in> set (sockets (nsps io ! i)). heap w' r = heap (rt io) r"
    using r matching_socket_None [OF m] by (simp add: only_root_def)
  then show ?thesis
    using False e failure_nsps [OF e] by (simp add: failure_fanout)
qed

theorem fanout_skips_namespace_witness:
  "(2::nat) < length (nsps example_io) \<and>
   matching_socket (nsps example_io ! 2) (sock_id (heap (rt example_io) 0)) (rt example_io) = None \<and>
   nsps (authenticate_callback example_config 0 ''token'' None True example_io) ! 2 = nsps example_io ! 2 \<and>
   heap (rt (authenticate_callback example_config 0 ''token'' None True example_io)) 2 = heap (rt example_io) 2"
proof -
  have a: "(2::nat) < length (nsps example_io)" by (simp add: example_io_def)
  have b: "matching_socket (nsps example_io ! 2) (sock_id (heap (rt example_io) 0)) (rt example_io) = None"
    by (simp add: example_io_def matching_socket_def example_heap_def joined_def rootSocketId_def substring_def)
  have c: "2 \<in> set (sockets (nsps example_io ! 2))" by (simp add: example_io_def)
  show ?thesis
    using a b c fanout_skips_namespace [OF a b, of example_config "''token''" None True] by blast
qed

subsection \<open>A predicate that reports an error\<close>

lemma refusing_refl: "refusing w w"
  by (simp add: refusing_def same_ids_def same_flags_def keeps_logs_def)

lemma refusing_trans: "refusing a b \<Longrightarrow> refusing b c \<Longrightarrow> refusing a c"
  unfolding refusing_def same_ids_def same_flags_def keeps_logs_def
  by (metis subset_trans)

lemma disconnectConnections_refusing: "refusing w (disconnectConnections n sid m w)"
  by (auto simp: disconnectConnections_unfold refusing_def same_ids_def same_flags_def
      keeps_logs_def emit_def split: option.splits)

lemma failure_refusing:
  "each_nsp (\<lambda>nsp w. (nsp, disconnectConnections nsp (sock_id (heap w s)) m w)) ns w = (ns', w')
     \<Longrightarrow> refusing w w'"
  by (erule each_nsp_rel [rotated 3])
     (auto intro: disconnectConnections_refusing refusing_refl elim: refusing_trans)

lemma failure_reaches:
  assumes e: "each_nsp (\<lambda>nsp w. (nsp, disconnectConnections nsp (sock_id (heap w s)) m w)) ns w = (ns', w')"
    and i: "i < length ns"
    and m: "matching_socket (ns ! i) (sock_id (heap w s)) w = Some r"
  shows "Emit ''unauthorized'' (PMessage m) True \<in> set (emitted (heap w' r)) \<and> r \<in> set (acks w')"
proof -
  have "\<exists>v. refusing w v \<and>
          ns' ! i = fst (ns ! i, disconnectConnections (ns ! i) (sock_id (heap v s)) m v) \<and>
          refusing (snd (ns ! i, disconnectConnections (ns ! i) (sock_id (heap v s)) m v)) w'"
    by (rule each_nsp_nth [where R = refusing, OF _ _ _ e i])
       (auto intro: disconnectConnections_refusing refusing_refl elim: refusing_trans)
  then obtain v where v: "refusing w v"
    and k: "refusing (disconnectConnections (ns ! i) (sock_id (heap v s)) m v) w'"
    by auto
  from v have "same_ids w v" by (simp add: refusing_def)
  then have mv: "matching_socket (ns ! i) (sock_id (heap v s)) v = Some r"
    using m by (simp add: matching_socket_same_ids)
  have "Emit ''unauthorized'' (PMessage m) True
          \<in> set (emitted (heap (disconnectConnections (ns ! i) (sock_id (heap v s)) m v) r))"
    and "r \<in> set (acks (disconnectConnections (ns ! i) (sock_id (heap v s)) m v))"
    using mv by (simp_all add: disconnectConnections_unfold emit_def)
  then show ?thesis using k unfolding refusing_def keeps_logs_def by blast
qed

text \<open>
  C3, as the code has it. The callback tests the success flag alone. When an error is
  reported and the flag is false, every namespace holding a socket of the sender's root id
  has \<^verbatim>\<open>unauthorized\<close> with the error's message sent to that socket, the callback that
  closes it is queued for the acknowledgement and closes it when run, no socket's flag
  changes, and no \<^verbatim>\<open>connected\<close> object changes.
\<close>

theorem error_and_failure_refuses:
  assumes i: "i < length (nsps io)"
    and m: "matching_socket (nsps io ! i) (sock_id (heap (rt io) socket)) (rt io) = Some r"
  shows "Emit ''unauthorized'' (PMessage (err_message e)) True
           \<in> set (emitted (heap (rt (authenticate_callback config socket dat (Some e) False io)) r)) \<and>
         r \<in> set (acks (rt (authenticate_callback config socket dat (Some e) False io))) \<and>
         disconnect_calls (heap (ack_callback r
              (rt (authenticate_callback config socket dat (Some e) False io))) r) \<noteq> [] \<and>
         same_flags (rt io) (rt (authenticate_callback config socket dat (Some e) False io)) \<and>
         nsps (authenticate_callback config socket dat (Some e) False io) = nsps io"
proof -
  obtain ns' w' where e: "each_nsp (\<lambda>nsp w. (nsp, disconnectConnections nsp (sock_id (heap w socket))
        (failure_message (Some e)) w)) (nsps io) (rt io) = (ns', w')"
    by (cases "each_nsp (\<lambda>nsp w. (nsp, disconnectConnections nsp (sock_id (heap w socket))
        (failure_message (Some e)) w)) (nsps io) (rt io)")
  have io': "authenticate_callback config socket dat (Some e) False io = \<lparr>nsps = ns', rt = w'\<rparr>"
    using e by (simp add: failure_fanout)
  have msg: "failure_message (Some e) = err_message e" by (simp add: failure_message_def)
  have "refusing (rt io) w'" using e by (rule failure_refusing)
  then have f: "same_flags (rt io) w'" by (simp add: refusing_def)
  have n: "ns' = nsps io" using e by (rule failure_nsps)
  have c: "disconnect_calls (heap (ack_callback r w') r) \<noteq> []"
    by (simp add: ack_callback_def disconnect_def)
  show ?thesis using failure_reaches [OF e i m] f n c by (simp add: io' msg)
qed

theorem error_and_failure_refuses_witness:
  "(1::nat) < length (nsps example_io) \<and>
   matching_socket (nsps example_io ! 1) (sock_id (heap (rt example_io) 0)) (rt example_io) = Some 1 \<and>
   Emit ''unauthorized'' (PMessage (Some ''bad token'')) True
     \<in> set (emitted (heap (rt (authenticate_callback example_config 0 ''token''
            (Some \<lparr>err_message = Some ''bad token''\<rparr>) False example_io)) 1)) \<and>
   same_flags (rt example_io) (rt (authenticate_callback example_config 0 ''token''
            (Some \<lparr>err_message = Some ''bad token''\<rparr>) False example_io))"
proof -
  have a: "(1::nat) < length (nsps example_io)" by (simp add: example_io_def)
  have b: "matching_socket (nsps example_io ! 1) (sock_id (heap (rt example_io) 0)) (rt example_io) = Some 1"
    by (simp add: example_io_def matching_socket_def example_heap_def joined_def rootSocketId_def substring_def)
  show ?thesis
    using a b error_and_failure_refuses [OF a b, of "\<lparr>err_message = Some ''bad token''\<rparr>" example_config "''token''"]
    by simp
qed

text \<open>
  C3, as stated, fails when the error comes with a true success flag: the error is
  ignored, the socket is marked authenticated and reinserted, it is sent
  \<^verbatim>\<open>authenticated\<close> and no \<^verbatim>\<open>unauthorized\<close>, and no closing callback is queued.
\<close>

theorem error_with_success_counterexample:
  "is_auth (heap (rt (authenticate_callback example_config 0 ''token''
            (Some \<lparr>err_message = Some ''bad token''\<rparr>) True example_io)) 0) \<and>
   emitted (heap (rt (authenticate_callback example_config 0 ''token''
            (Some \<lparr>err_message = Some ''bad token''\<rparr>) True example_io)) 0)
     = [Emit ''authenticated'' (PBool True) False] \<and>
   acks (rt (authenticate_callback example_config 0 ''token''
            (Some \<lparr>err_message = Some ''bad token''\<rparr>) True example_io)) = [] \<and>
   connected (nsps (authenticate_callback example_config 0 ''token''
            (Some \<lparr>err_message = Some ''bad token''\<rparr>) True example_io) ! 0) ''/a#XYZ'' = Some 0"
  by (simp add: authenticate_callback_def example_io_def example_config_def cleanConfig_def
      authConnections_def example_heap_def joined_def rootSocketId_def substring_def emit_def is_auth_def)

subsection \<open>Failure fan-out\<close>

lemma distinct_concat_unique:
  "distinct (concat (map f xs)) \<Longrightarrow> a \<in> set xs \<Longrightarrow> b \<in> set xs \<Longrightarrow>
   x \<in> set (f a) \<Longrightarrow> x \<in> set (f b) \<Longrightarrow> a = b"
  by (induction xs) auto

lemma failure_heap:
  "distinct (concat (map sockets ns)) \<Longrightarrow>
   each_nsp (\<lambda>nsp w. (nsp, disconnectConnections nsp (sock_id (heap w s)) m w)) ns w = (ns', w') \<Longrightarrow>
   heap w' r =
     (if \<exists>n \<in> set ns. matching_socket n (sock_id (heap w s)) w = Some r
      then emit (heap w r) ''unauthorized'' (PMessage m) True else heap w r)"
proof (induction ns arbitrary: w ns' w')
  case Nil
  then show ?case by simp
next
  case (Cons n ns)
  let ?sid = "sock_id (heap w s)"
  let ?w1 = "disconnectConnections n ?sid m w"
  obtain ns2 where e: "each_nsp (\<lambda>nsp w. (nsp, disconnectConnections nsp (sock_id (heap w s)) m w))
       ns ?w1 = (ns2, w')"
    using Cons.prems(2) by (auto split: prod.splits)
  have d: "distinct (concat (map sockets ns))" using Cons.prems(1) by simp
  have ids: "same_ids w ?w1" by (rule disconnectConnections_same_ids)
  have mm: "\<And>k. matching_socket k (sock_id (heap ?w1 s)) ?w1 = matching_socket k ?sid w"
    using ids by (rule matching_socket_same_ids)
  have ih: "heap w' r =
     (if \<exists>k \<in> set ns. matching_socket k ?sid w = Some r
      then emit (heap ?w1 r) ''unauthorized'' (PMessage m) True else heap ?w1 r)"
    using Cons.IH [OF d e] by (simp add: mm)
  show ?case
  proof (cases "matching_socket n ?sid w")
    case None
    then have "?w1 = w" by (simp add: disconnectConnections_unfold)
    with ih None show ?thesis by simp
  next
    case (Some r1)
    then have r1: "r1 \<in> set (sockets n)" by (simp add: matching_socket_Some)
    have h1: "heap ?w1 = (heap w)(r1 := emit (heap w r1) ''unauthorized'' (PMessage m) True)"
      using Some by (simp add: disconnectConnections_unfold)
    have no: "\<And>k. k \<in> set ns \<Longrightarrow> matching_socket k ?sid w \<noteq> Some r1"
    proof
      fix k assume k: "k \<in> set ns" and "matching_socket k ?sid w = Some r1"
      then have "r1 \<in> set (sockets k)" by (simp add: matching_socket_Some)
      with r1 k Cons.prems(1) show False by auto
    qed
    show ?thesis
    proof (cases "r = r1")
      case True
      with ih h1 Some no show ?thesis by auto
    next
      case False
      with ih h1 Some show ?thesis by auto
    qed
  qed
qed

text \<open>
  C5. The predicate resolves with failure, on a server whose namespaces share no socket
  object. In every namespace holding a socket of the sender's root id, the socket found
  is sent exactly one event more, \<^verbatim>\<open>unauthorized\<close> with payload \<open>{message}\<close>, and no other
  socket of that namespace is touched. The message is the error's message when an error
  was given and \<open>Authentication failure\<close> otherwise. The fan-out itself calls no
  \<^verbatim>\<open>disconnect\<close>: it queues the callback for the acknowledgement, and that callback
  closes the socket.
\<close>

theorem failure_sends_one_unauthorized:
  assumes d: "distinct (concat (map sockets (nsps io)))"
    and n: "n \<in> set (nsps io)"
    and m: "matching_socket n (sock_id (heap (rt io) socket)) (rt io) = Some r"
  shows "emitted (heap (rt (authenticate_callback config socket dat err False io)) r)
           = emitted (heap (rt io) r) @ [Emit ''unauthorized'' (PMessage (failure_message err)) True] \<and>
         (\<forall>r' \<in> set (sockets n). r' \<noteq> r \<longrightarrow>
            heap (rt (authenticate_callback config socket dat err False io)) r' = heap (rt io) r') \<and>
         failure_message None = Some ''Authentication failure'' \<and>
         (\<forall>e. failure_message (Some e) = err_message e) \<and>
         disconnect_calls (heap (rt (authenticate_callback config socket dat err False io)) r)
           = disconnect_calls (heap (rt io) r) \<and>
         r \<in> set (acks (rt (authenticate_callback config socket dat err False io))) \<and>
         disconnect_calls (heap (ack_callback r
              (rt (authenticate_callback config socket dat err False io))) r)
           = disconnect_calls (heap (rt io) r) @ [None]"
proof -
  let ?sid = "sock_id (heap (rt io) socket)"
  obtain ns' w' where e: "each_nsp (\<lambda>nsp w. (nsp, disconnectConnections nsp (sock_id (heap w socket))
        (failure_message err) w)) (nsps io) (rt io) = (ns', w')"
    by (cases "each_nsp (\<lambda>nsp w. (nsp, disconnectConnections nsp (sock_id (heap w socket))
        (failure_message err) w)) (nsps io) (rt io)")
  have io': "authenticate_callback config socket dat err False io = \<lparr>nsps = ns', rt = w'\<rparr>"
    using e by (simp add: failure_fanout)
  note h = failure_heap [OF d e]
  have hr: "heap w' r = emit (heap (rt io) r) ''unauthorized'' (PMessage (failure_message err)) True"
    using h [of r] n m by auto
  have others: "\<forall>r' \<in> set (sockets n). r' \<noteq> r \<longrightarrow> heap w' r' = heap (rt io) r'"
  proof (intro ballI impI)
    fix r' assume r': "r' \<in> set (sockets n)" and ne: "r' \<noteq> r"
    have "\<not> (\<exists>k \<in> set (nsps io). matching_socket k ?sid (rt io) = Some r')"
    proof
      assume "\<exists>k \<in> set (nsps io). matching_socket k ?sid (rt io) = Some r'"
      then obtain k where k: "k \<in> set (nsps io)" and mk: "matching_socket k ?sid (rt io) = Some r'"
        by blast
      from mk have "r' \<in> set (sockets k)" by (simp add: matching_socket_Some)
      with d n k r' have "n = k" by (rule distinct_concat_unique)
      with m mk ne show False by simp
    qed
    then show "heap w' r' = heap (rt io) r'" using h [of r'] by simp
  qed
  obtain i where i: "i < length (nsps io)" and ni: "nsps io ! i = n"
    using n by (auto simp: in_set_conv_nth)
  have a: "r \<in> set (acks w')"
    using failure_reaches [OF e i] m ni by simp
  have msg: "failure_message None = Some ''Authentication failure'' \<and>
         (\<forall>e. failure_message (Some e) = err_message e)"
    by (simp add: failure_message_def)
  show ?thesis
    using hr others a msg by (simp add: io' emit_def ack_callback_def disconnect_def)
qed

theorem failure_sends_one_unauthorized_witness:
  "distinct (concat (map sockets (nsps example_io))) \<and>
   nsps example_io ! 1 \<in> set (nsps example_io) \<and>
   matching_socket (nsps example_io ! 1) (sock_id (heap (rt example_io) 0)) (rt example_io) = Some 1 \<and>
   emitted (heap (rt (authenticate_callback example_config 0 ''token''
              (Some \<lparr>err_message = Some ''bad token''\<rparr>) False example_io)) 1)
     = emitted (heap (rt example_io) 1) @
         [Emit ''unauthorized'' (PMessage (failure_message (Some \<lparr>err_message = Some ''bad token''\<rparr>))) True] \<and>
   failure_message (Some \<lparr>err_message = Some ''bad token''\<rparr>) = Some ''bad token'' \<and>
   disconnect_calls (heap (rt (authenticate_callback example_config 0 ''token''
              (Some \<lparr>err_message = Some ''bad token''\<rparr>) False example_io)) 1) = [] \<and>
   3 \<in> set (sockets (nsps example_io ! 1)) \<and>
   heap (rt (authenticate_callback example_config 0 ''token''
              (Some \<lparr>err_message = Some ''bad token''\<rparr>) False example_io)) 3
     = heap (rt example_io) 3"
proof -
  have a: "distinct (concat (map sockets (nsps example_io)))" by (simp add: example_io_def)
  have b: "nsps example_io ! 1 \<in> set (nsps example_io)" by (simp add: example_io_def)
  have c: "matching_socket (nsps example_io ! 1) (sock_id (heap (rt example_io) 0)) (rt example_io) = Some 1"
    by (simp add: example_io_def matching_socket_def example_heap_def joined_def rootSocketId_def substring_def)
  have e: "disconnect_calls (heap (rt example_io) 1) = []"
    by (simp add: example_io_def example_heap_def joined_def)
  have f: "3 \<in> set (sockets (nsps example_io ! 1))" by (simp add: example_io_def)
  have g: "failure_message (Some \<lparr>err_message = Some ''bad token''\<rparr>) = Some ''bad token''"
    by (simp add: failure_message_def)
  have "(3::nat) \<noteq> 1" by simp
  then show ?thesis
    using a b c e f g failure_sends_one_unauthorized [OF a b c, of example_config "''token''"
        "Some \<lparr>err_message = Some ''bad token''\<rparr>"]
    by (simp del: One_nat_def)
qed

subsection \<open>The Admission Filter\<close>

text \<open>
  C4. A socket whose flag is not true connects to a namespace: the server raises
  \<^verbatim>\<open>connect\<close> and then \<^verbatim>\<open>connection\<close>. After both listeners have run, the socket's id
  is not a key of that namespace's \<^verbatim>\<open>connected\<close> object, the raw list is as before, and
  when the key was absent already the \<^verbatim>\<open>connect\<close> listener changes nothing.
\<close>

theorem connect_excludes_unauthenticated:
  assumes i: "i < length (nsps io)" and u: "\<not> is_auth (heap (rt io) socket)"
  shows "connected (nsps (step config (Connection socket) (step config (Connect i socket) io)) ! i)
           (sock_id (heap (rt io) socket)) = None \<and>
         sockets (nsps (step config (Connection socket) (step config (Connect i socket) io)) ! i)
           = sockets (nsps io ! i) \<and>
         (connected (nsps io ! i) (sock_id (heap (rt io) socket)) = None \<longrightarrow>
            step config (Connect i socket) io = io)"
proof -
  have idem: "connected (nsps io ! i) (sock_id (heap (rt io) socket)) = None \<Longrightarrow>
      (connected (nsps io ! i))(sock_id (heap (rt io) socket) := None) = connected (nsps io ! i)"
    by (simp add: fun_upd_idem_iff)
  show ?thesis using i u by (auto simp: forbidConnections_def idem)
qed

theorem connect_excludes_unauthenticated_witness:
  "(0::nat) < length (nsps example_io) \<and> \<not> is_auth (heap (rt example_io) 0) \<and>
   connected (nsps (step example_config (Connection 0) (step example_config (Connect 0 0) example_io)) ! 0)
     (sock_id (heap (rt example_io) 0)) = None \<and>
   connected (nsps example_io ! 0) (sock_id (heap (rt example_io) 0)) = None \<and>
   step example_config (Connect 0 0) example_io = example_io"
proof -
  have a: "(0::nat) < length (nsps example_io)" by (simp add: example_io_def)
  have b: "\<not> is_auth (heap (rt example_io) 0)"
    by (simp add: example_io_def example_heap_def joined_def is_auth_def)
  have c: "connected (nsps example_io ! 0) (sock_id (heap (rt example_io) 0)) = None"
    by (simp add: example_io_def)
  show ?thesis
    using a b c connect_excludes_unauthenticated [OF a b, of example_config] by blast
qed

subsection \<open>The Timer Guard\<close>

lemma status_of_cases:
  "status_of s = Authenticated \<longleftrightarrow> is_auth s"
  "status_of s = Pending \<longleftrightarrow> \<not> is_auth s \<and> \<not> was_refused s"
  "status_of s = Rejected \<longleftrightarrow> \<not> is_auth s \<and> was_refused s"
  by (simp_all add: status_of_def)

text \<open>
  C6, as the code has it. The timeout callback tests the flag and nothing else. A pending
  socket gets its first \<^verbatim>\<open>disconnect('unauthorized')\<close>; an authenticated one is left
  alone; and a socket already rejected, whose flag is still false, gets
  \<^verbatim>\<open>disconnect('unauthorized')\<close> as well.
\<close>

theorem timeout_callback_tests_flag:
  "(status_of (heap w socket) = Pending \<longrightarrow>
      disconnect_calls (heap (timeout_callback socket w) socket) = [Some ''unauthorized'']) \<and>
   (status_of (heap w socket) = Rejected \<longrightarrow>
      disconnect_calls (heap (timeout_callback socket w) socket)
        = disconnect_calls (heap w socket) @ [Some ''unauthorized'']) \<and>
   (status_of (heap w socket) = Authenticated \<longrightarrow> timeout_callback socket w = w)"
  by (simp add: status_of_cases timeout_callback_def disconnect_def was_refused_def)

theorem timeout_callback_tests_flag_witness:
  "status_of (heap (rt example_io) 0) = Pending \<and>
   disconnect_calls (heap (timeout_callback 0 (rt example_io)) 0) = [Some ''unauthorized''] \<and>
   status_of (heap (rt (step example_config (PredicateDone 0 ''wrong'' None False) example_io)) 0)
     = Rejected \<and>
   disconnect_calls (heap (timeout_callback 0
       (rt (step example_config (PredicateDone 0 ''wrong'' None False) example_io))) 0)
     = disconnect_calls (heap
         (rt (step example_config (PredicateDone 0 ''wrong'' None False) example_io)) 0)
       @ [Some ''unauthorized''] \<and>
   status_of (heap (rt (step example_config (PredicateDone 0 ''token'' None True) example_io)) 0)
     = Authenticated \<and>
   timeout_callback 0 (rt (step example_config (PredicateDone 0 ''token'' None True) example_io))
     = rt (step example_config (PredicateDone 0 ''token'' None True) example_io)"
proof -
  have a: "status_of (heap (rt example_io) 0) = Pending"
    by (simp add: example_io_def example_heap_def joined_def status_of_def is_auth_def was_refused_def)
  have b: "status_of (heap (rt (step example_config (PredicateDone 0 ''wrong'' None False)
             example_io)) 0) = Rejected"
    by (simp add: authenticate_callback_def example_io_def example_config_def cleanConfig_def
      disconnectConnections_def example_heap_def joined_def rootSocketId_def substring_def emit_def
      is_auth_def status_of_def was_refused_def Let_def)
  have c: "status_of (heap (rt (step example_config (PredicateDone 0 ''token'' None True)
             example_io)) 0) = Authenticated"
    by (simp add: authenticate_callback_def example_io_def example_config_def cleanConfig_def
      authConnections_def example_heap_def joined_def rootSocketId_def substring_def emit_def
      is_auth_def status_of_def Let_def)
  show ?thesis
    using a b c
      timeout_callback_tests_flag [of "rt example_io" 0]
      timeout_callback_tests_flag
        [of "rt (step example_config (PredicateDone 0 ''wrong'' None False) example_io)" 0]
      timeout_callback_tests_flag
        [of "rt (step example_config (PredicateDone 0 ''token'' None True) example_io)" 0]
    by simp
qed

text \<open>
  C6, as stated, fails for a rejected session. The predicate fails for the \<open>/a\<close> socket:
  it is sent \<^verbatim>\<open>unauthorized\<close> and waits, not yet closed, for the acknowledgement. Its
  timeout then fires, and the callback closes it with \<^verbatim>\<open>'unauthorized'\<close>.
\<close>

theorem timer_after_rejection_counterexample:
  "status_of (heap (rt (run example_config [PredicateDone 0 ''token'' None False] example_io)) 0) = Rejected \<and>
   disconnect_calls (heap (rt (run example_config [PredicateDone 0 ''token'' None False] example_io)) 0) = [] \<and>
   snd (timers (rt (run example_config [PredicateDone 0 ''token'' None False] example_io)) ! 0) = 0 \<and>
   disconnect_calls (heap (rt (run example_config [PredicateDone 0 ''token'' None False, TimerFires 0]
       example_io)) 0) = [Some ''unauthorized'']"
  by (simp add: authenticate_callback_def example_io_def example_config_def cleanConfig_def
      disconnectConnections_def example_heap_def joined_def rootSocketId_def substring_def emit_def
      is_auth_def status_of_def was_refused_def timeout_callback_def disconnect_def drop_nth_def Let_def)

subsection \<open>The flag over the life of a socket\<close>

lemma flag_kept_refl: "flag_kept w w"
  by (simp add: flag_kept_def)

lemma flag_kept_trans: "flag_kept a b \<Longrightarrow> flag_kept b c \<Longrightarrow> flag_kept a c"
  by (simp add: flag_kept_def)

lemma authConnections_flag_kept:
  "authConnections n sid (call_hook h d) w = (n', w') \<Longrightarrow> flag_kept w w'"
  by (auto simp: authConnections_unfold flag_kept_def status_of_cases is_auth_def emit_def
      split: option.splits if_splits)

lemma disconnectConnections_flag_kept: "flag_kept w (disconnectConnections n sid m w)"
  by (auto simp: disconnectConnections_unfold flag_kept_def status_of_cases is_auth_def
      was_refused_def emit_def split: option.splits if_splits)

lemma timeout_callback_flag_kept: "flag_kept w (timeout_callback s w)"
  by (auto simp: timeout_callback_def flag_kept_def status_of_cases is_auth_def
      was_refused_def disconnect_def split: if_splits)

lemma ack_callback_flag_kept: "flag_kept w (ack_callback s w)"
  by (auto simp: ack_callback_def flag_kept_def status_of_cases is_auth_def
      was_refused_def disconnect_def split: if_splits)

lemma setupConnectionHandlers_flag_kept: "flag_kept w (setupConnectionHandlers config s w)"
  by (auto simp: setupConnectionHandlers_def setupTimeout_def flag_kept_def status_of_cases
      is_auth_def was_refused_def split: if_splits)

lemma flag_kept_field: "heap v = heap w \<Longrightarrow> flag_kept v w' \<Longrightarrow> flag_kept w w'"
  by (simp add: flag_kept_def)

lemma step_flag_kept: "flag_kept (rt io) (rt (step config ev io))"
proof (cases ev)
  case (Connect i s)
  then show ?thesis by (simp add: flag_kept_refl)
next
  case (Connection s)
  then show ?thesis by (simp add: setupConnectionHandlers_flag_kept)
next
  case (TimerFires k)
  have "flag_kept (rt io) (timeout_callback s (rt io\<lparr>timers := ts\<rparr>))" for s ts
    by (rule flag_kept_field [OF _ timeout_callback_flag_kept]) simp
  with TimerFires show ?thesis by (simp add: flag_kept_refl)
next
  case (PredicateDone s dat err success)
  show ?thesis
  proof (cases success)
    case True
    have "flag_kept (rt io) (snd (each_nsp (\<lambda>nsp w. authConnections nsp (sock_id (heap w s))
            (call_hook (cleanPostAuthenticate config) dat) w) (nsps io) (rt io)))"
      by (rule each_nsp_rel [where R = flag_kept and f = "\<lambda>nsp w. authConnections nsp (sock_id (heap w s))
            (call_hook (cleanPostAuthenticate config) dat) w" and ns = "nsps io"
            and ns' = "fst (each_nsp (\<lambda>nsp w. authConnections nsp (sock_id (heap w s))
            (call_hook (cleanPostAuthenticate config) dat) w) (nsps io) (rt io))"])
         (auto intro: flag_kept_refl elim: authConnections_flag_kept flag_kept_trans)
    with True PredicateDone show ?thesis by (simp add: success_fanout)
  next
    case False
    have "flag_kept (rt io) (snd (each_nsp (\<lambda>nsp w. (nsp, disconnectConnections nsp (sock_id (heap w s))
            (failure_message err) w)) (nsps io) (rt io)))"
      by (rule each_nsp_rel [where R = flag_kept and f = "\<lambda>nsp w. (nsp, disconnectConnections nsp (sock_id (heap w s))
            (failure_message err) w)" and ns = "nsps io"
            and ns' = "fst (each_nsp (\<lambda>nsp w. (nsp, disconnectConnections nsp (sock_id (heap w s))
            (failure_message err) w)) (nsps io) (rt io))"])
         (auto intro: flag_kept_refl disconnectConnections_flag_kept elim: flag_kept_trans)
    with False PredicateDone show ?thesis by (simp add: failure_fanout)
  qed
next
  case (AckReceived k)
  have "flag_kept (rt io) (ack_callback s (rt io\<lparr>acks := ts\<rparr>))" for s ts
    by (rule flag_kept_field [OF _ ack_callback_flag_kept]) simp
  with AckReceived show ?thesis by (simp add: flag_kept_refl)
qed

lemma run_flag_kept: "flag_kept (rt io) (rt (run config evs io))"
proof (induction evs arbitrary: io)
  case Nil
  show ?case by (simp add: flag_kept_refl)
next
  case (Cons e es)
  have "flag_kept (rt io) (rt (step config e io))" by (rule step_flag_kept)
  moreover have "flag_kept (rt (step config e io)) (rt (run config es (step config e io)))"
    by (rule Cons.IH)
  ultimately show ?case using flag_kept_trans by simp
qed

text \<open>
  C8, as the code has it. Over any sequence of events, a socket whose flag is true keeps
  it: \<open>authenticated\<close> is never left. And a socket that is pending after the events was
  pending before them: \<open>pending\<close> is never entered again. The transitions left are
  \<open>pending \<rightarrow> authenticated\<close>, \<open>pending \<rightarrow> rejected\<close> and \<open>rejected \<rightarrow> authenticated\<close>.
\<close>

theorem authenticated_is_never_left:
  "(is_auth (heap (rt io) r) \<longrightarrow> is_auth (heap (rt (run config evs io)) r)) \<and>
   (status_of (heap (rt io) r) = Authenticated \<longrightarrow>
      status_of (heap (rt (run config evs io)) r) = Authenticated) \<and>
   (status_of (heap (rt (run config evs io)) r) = Pending \<longrightarrow>
      status_of (heap (rt io) r) = Pending)"
  using run_flag_kept [of io config evs] by (simp add: flag_kept_def status_of_cases)

theorem authenticated_is_never_left_witness:
  "is_auth (heap (rt (step example_config (PredicateDone 0 ''token'' None True) example_io)) 0) \<and>
   is_auth (heap (rt (run example_config
        [PredicateDone 0 ''wrong'' None False, AckReceived 0, TimerFires 0, Connection 0]
        (step example_config (PredicateDone 0 ''token'' None True) example_io))) 0) \<and>
   status_of (heap (rt (run example_config [PredicateDone 0 ''token'' None True] example_io)) 2)
     = Pending \<and>
   status_of (heap (rt example_io) 2) = Pending"
proof -
  have a: "is_auth (heap (rt (step example_config (PredicateDone 0 ''token'' None True) example_io)) 0)"
    by (simp add: authenticate_callback_def example_io_def example_config_def cleanConfig_def
      authConnections_def example_heap_def joined_def rootSocketId_def substring_def emit_def
      is_auth_def Let_def)
  have b: "status_of (heap (rt (run example_config [PredicateDone 0 ''token'' None True]
             example_io)) 2) = Pending"
    by (simp add: authenticate_callback_def example_io_def example_config_def cleanConfig_def
      authConnections_def example_heap_def joined_def rootSocketId_def substring_def emit_def
      is_auth_def status_of_def was_refused_def Let_def)
  show ?thesis
    using a b
      authenticated_is_never_left
        [of "step example_config (PredicateDone 0 ''token'' None True) example_io" 0 example_config
            "[PredicateDone 0 ''wrong'' None False, AckReceived 0, TimerFires 0, Connection 0]"]
      authenticated_is_never_left
        [of example_io 2 example_config "[PredicateDone 0 ''token'' None True]"]
    by blast
qed

text \<open>
  C8, as stated, fails: nothing records a rejection, so a later authentication message
  is served like the first. The \<open>/a\<close> socket is pending, then rejected by a failing
  predicate, then authenticated by a succeeding one: two transitions, the second out of
  \<open>rejected\<close>.
\<close>

theorem status_twice_counterexample:
  "status_of (heap (rt example_io) 0) = Pending \<and>
   status_of (heap (rt (run example_config [PredicateDone 0 ''wrong'' None False] example_io)) 0) = Rejected \<and>
   status_of (heap (rt (run example_config [PredicateDone 0 ''wrong'' None False,
        PredicateDone 0 ''token'' None True] example_io)) 0) = Authenticated"
  by (simp add: authenticate_callback_def example_io_def example_config_def cleanConfig_def
      disconnectConnections_def authConnections_def example_heap_def joined_def rootSocketId_def
      substring_def emit_def is_auth_def status_of_def was_refused_def Let_def)

subsection \<open>The timeout \<open>none\<close>\<close>

lemma timer_idle_refl: "timer_idle w w"
  by (simp add: timer_idle_def)

lemma timer_idle_trans: "timer_idle a b \<Longrightarrow> timer_idle b c \<Longrightarrow> timer_idle a c"
  by (simp add: timer_idle_def)

lemma authConnections_timer_idle:
  "authConnections n sid (call_hook h d) w = (n', w') \<Longrightarrow> timer_idle w w'"
  by (auto simp: authConnections_unfold timer_idle_def by_timer_def emit_def split: option.splits)

lemma disconnectConnections_timer_idle: "timer_idle w (disconnectConnections n sid m w)"
  by (auto simp: disconnectConnections_unfold timer_idle_def by_timer_def emit_def
      split: option.splits)

lemma ack_callback_timer_idle: "timer_idle w (ack_callback s w)"
  by (auto simp: ack_callback_def timer_idle_def by_timer_def disconnect_def)

lemma setupConnectionHandlers_timer_idle:
  "cleanTimeout config = JStr ''none'' \<Longrightarrow> timer_idle w (setupConnectionHandlers config s w)"
  by (auto simp: setupConnectionHandlers_def setupTimeout_def timer_idle_def by_timer_def)

lemma timer_idle_field:
  "heap v = heap w \<Longrightarrow> timers v = timers w \<Longrightarrow> timer_idle v w' \<Longrightarrow> timer_idle w w'"
  by (simp add: timer_idle_def)

lemma step_timer_idle:
  assumes none: "cleanTimeout config = JStr ''none''" and empty: "timers (rt io) = []"
  shows "timer_idle (rt io) (rt (step config ev io))"
proof (cases ev)
  case (Connect i s)
  then show ?thesis by (simp add: timer_idle_refl)
next
  case (Connection s)
  then show ?thesis using none by (simp add: setupConnectionHandlers_timer_idle)
next
  case (TimerFires k)
  then show ?thesis using empty by (simp add: timer_idle_refl)
next
  case (PredicateDone s dat err success)
  show ?thesis
  proof (cases success)
    case True
    have "timer_idle (rt io) (snd (each_nsp (\<lambda>nsp w. authConnections nsp (sock_id (heap w s))
            (call_hook (cleanPostAuthenticate config) dat) w) (nsps io) (rt io)))"
      by (rule each_nsp_rel [where R = timer_idle and f = "\<lambda>nsp w. authConnections nsp (sock_id (heap w s))
            (call_hook (cleanPostAuthenticate config) dat) w" and ns = "nsps io"
            and ns' = "fst (each_nsp (\<lambda>nsp w. authConnections nsp (sock_id (heap w s))
            (call_hook (cleanPostAuthenticate config) dat) w) (nsps io) (rt io))"])
         (auto intro: timer_idle_refl elim: authConnections_timer_idle timer_idle_trans)
    with True PredicateDone show ?thesis by (simp add: success_fanout)
  next
    case False
    have "timer_idle (rt io) (snd (each_nsp (\<lambda>nsp w. (nsp, disconnectConnections nsp (sock_id (heap w s))
            (failure_message err) w)) (nsps io) (rt io)))"
      by (rule each_nsp_rel [where R = timer_idle and f = "\<lambda>nsp w. (nsp, disconnectConnections nsp (sock_id (heap w s))
            (failure_message err) w)" and ns = "nsps io"
            and ns' = "fst (each_nsp (\<lambda>nsp w. (nsp, disconnectConnections nsp (sock_id (heap w s))
            (failure_message err) w)) (nsps io) (rt io))"])
         (auto intro: timer_idle_refl disconnectConnections_timer_idle elim: timer_idle_trans)
    with False PredicateDone show ?thesis by (simp add: failure_fanout)
  qed
next
  case (AckReceived k)
  have "timer_idle (rt io) (ack_callback s (rt io\<lparr>acks := ts\<rparr>))" for s ts
    by (rule timer_idle_field [OF _ _ ack_callback_timer_idle]) simp_all
  with AckReceived show ?thesis by (simp add: timer_idle_refl)
qed

lemma run_timer_idle:
  assumes none: "cleanTimeout config = JStr ''none''"
  shows "timers (rt io) = [] \<Longrightarrow> timer_idle (rt io) (rt (run config evs io))"
proof (induction evs arbitrary: io)
  case Nil
  show ?case by (simp add: timer_idle_refl)
next
  case (Cons e es)
  have s: "timer_idle (rt io) (rt (step config e io))"
    using none Cons.prems by (rule step_timer_idle)
  then have "timers (rt (step config e io)) = []" using Cons.prems by (simp add: timer_idle_def)
  then have "timer_idle (rt (step config e io)) (rt (run config es (step config e io)))"
    by (rule Cons.IH)
  with s show ?case using timer_idle_trans by simp
qed

text \<open>
  C7. With the timeout \<open>none\<close>, cleaning keeps the value, \<open>setupTimeout\<close> schedules
  nothing, and over any sequence of events from a server without a scheduled timeout
  no timeout is ever scheduled and no socket ever gets a \<^verbatim>\<open>disconnect('unauthorized')\<close>,
  the call of the Timer Guard.
\<close>

theorem timeout_none_never_closes:
  assumes none: "timeout c = JStr ''none''" and empty: "timers (rt io) = []"
  shows "setupTimeout (cleanTimeout (cleanConfig (Some c))) socket w = w \<and>
         timers (rt (run (cleanConfig (Some c)) evs io)) = [] \<and>
         by_timer (heap (rt (run (cleanConfig (Some c)) evs io)) r) = by_timer (heap (rt io) r)"
proof -
  have n: "cleanTimeout (cleanConfig (Some c)) = JStr ''none''"
    using none by (simp add: cleanConfig_def)
  have "timer_idle (rt io) (rt (run (cleanConfig (Some c)) evs io))"
    using n empty by (rule run_timer_idle)
  then show ?thesis using n empty by (simp add: timer_idle_def setupTimeout_def)
qed

theorem timeout_none_never_closes_witness:
  "timeout \<lparr>timeout = JStr ''none'', authenticate = Some 0, postAuthenticate = None\<rparr> = JStr ''none'' \<and>
   timers (rt quiet_io) = [] \<and>
   timers (rt (run (cleanConfig (Some \<lparr>timeout = JStr ''none'', authenticate = Some 0,
                                         postAuthenticate = None\<rparr>))
                 [Connect 0 0, Connection 0, TimerFires 0] quiet_io)) = [] \<and>
   by_timer (heap (rt (run (cleanConfig (Some \<lparr>timeout = JStr ''none'', authenticate = Some 0,
                                         postAuthenticate = None\<rparr>))
                 [Connect 0 0, Connection 0, TimerFires 0] quiet_io)) 0) = []"
proof -
  have a: "timeout \<lparr>timeout = JStr ''none'', authenticate = Some 0, postAuthenticate = None\<rparr>
             = JStr ''none''" by simp
  have b: "timers (rt quiet_io) = []" by (simp add: quiet_io_def)
  have c: "by_timer (heap (rt quiet_io) 0) = []"
    by (simp add: quiet_io_def example_io_def example_heap_def joined_def by_timer_def)
  show ?thesis
    using a b c timeout_none_never_closes [OF a b, of _ _ "[Connect 0 0, Connection 0, TimerFires 0]" 0]
    by simp
qed

end
